theory Spec2Isabelle
  imports Complex_Main "HOL-Library.Sublist"
begin

section \<open>Strings and values of the host language\<close>

text \<open>
  The program is TypeScript. A string of the program is modelled as a \<open>string\<close> whose
  characters stand for the code units of the source string, so \<open>length\<close> counts what the
  program's \<open>.length\<close> counts. The accented letters of the source's literals are written by
  their code (\<open>CHR 0xE1\<close> is a-acute).
\<close>

definition isDigit :: "char \<Rightarrow> bool" where
  \<comment> \<open>the complement of the pattern class \<open>\D\<close>\<close>
  "isDigit c = (c \<in> set ''0123456789'')"

fun startsWith :: "string \<Rightarrow> string \<Rightarrow> bool" where
  "startsWith s [] = True"
| "startsWith [] (p # ps) = False"
| "startsWith (c # cs) (p # ps) = (c = p \<and> startsWith cs ps)"

fun includes_str :: "string \<Rightarrow> string \<Rightarrow> bool" where
  "includes_str [] sub = startsWith [] sub"
| "includes_str (c # cs) sub = (startsWith (c # cs) sub \<or> includes_str cs sub)"

text \<open>
  A value of the program at run time, as far as the modelled code can see one: what
  \<open>JSON.parse\<close> returns, what a spreadsheet cell holds, what a field typed \<open>any\<close> carries.
  A number is carried by its mathematical value (negative zero is zero; neither the parser
  nor a cell produces a NaN). An object is the list of its own properties in enumeration
  order, each key once.
\<close>

datatype jv =
    JUndef
  | JNull
  | JBool bool
  | JNum rat
  | JStr string
  | JArr "jv list"
  | JObj "(string \<times> jv) list"

fun truthy :: "jv \<Rightarrow> bool" where
  "truthy JUndef = False"
| "truthy JNull = False"
| "truthy (JBool b) = b"
| "truthy (JNum r) = (r \<noteq> 0)"
| "truthy (JStr s) = (s \<noteq> [])"
| "truthy (JArr xs) = True"
| "truthy (JObj kvs) = True"

text \<open>
  What the program takes from its host and its libraries is a parameter of the model:
  the JSON parser (\<open>None\<close> when it throws a syntax error), the conversion \<open>String(v)\<close> of a
  value that is not a string, \<open>generateId\<close> (built from the clock and a random number; the
  \<open>n\<close>-th call of an import returns \<open>generateId h n\<close>), the calendar arithmetic of
  \<open>convertExcelDate\<close> and \<open>encodeURIComponent\<close>.
\<close>

record host =
  JSON_parse :: "string \<Rightarrow> jv option"
  String_of :: "jv \<Rightarrow> string"
  generateId :: "nat \<Rightarrow> string"
  excelDate :: "rat \<Rightarrow> string"
  encodeURIComponent :: "string \<Rightarrow> string"

definition js_String :: "host \<Rightarrow> jv \<Rightarrow> string" where
  "js_String h v = (case v of JStr s \<Rightarrow> s | _ \<Rightarrow> String_of h v)"

definition nullish :: "jv \<Rightarrow> bool" where
  "nullish v = (v = JUndef \<or> v = JNull)"

text \<open>
  Reading one of the properties \<open>id\<close>, \<open>name\<close>, \<open>phone\<close>, \<open>customMessage\<close> of a value that
  is neither \<open>null\<close> nor \<open>undefined\<close>: an object gives its own property, anything else
  \<open>undefined\<close> (no prototype of the host defines one of these four names).
\<close>

definition js_prop :: "jv \<Rightarrow> string \<Rightarrow> jv" where
  "js_prop v k = (case v of JObj kvs \<Rightarrow> (case map_of kvs k of None \<Rightarrow> JUndef | Some x \<Rightarrow> x)
               | _ \<Rightarrow> JUndef)"

section \<open>Contacts\<close>

datatype ContactStatus = Pendente | MensagemEnviada | AguardandoResposta | Respondido | Outro

text \<open>
  The interface \<open>Contact\<close>. The fields that an import fills from a value typed \<open>any\<close>
  keep that value; an optional field that is absent is \<open>JUndef\<close> or \<open>None\<close>.
\<close>

record contact =
  id_c :: jv
  name :: jv
  phone :: string
  status :: ContactStatus
  customMessage :: jv
  timerActive :: "bool option"
  extraInfo :: "(string \<times> jv) list option"

section \<open>Errors\<close>

text \<open>
  Every \<open>throw\<close> of the source is a value of \<open>error\<close>. \<open>InvalidPhone\<close> carries the
  text interpolated into the message of the source's error; \<open>JsonInvalid\<close> is the error
  rebuilt by the \<open>catch\<close> of \<open>validateAndParseJSON\<close> around the message of the caught one;
  \<open>JsTypeError\<close> is the host's error on reading a property of \<open>null\<close> or \<open>undefined\<close>;
  \<open>NoValidContacts\<close> carries the per-row failures joined into its message, each with the
  row number printed in front of it; \<open>NoContactsFound\<close> is the other error of
  \<open>parseExcelFile\<close> for a sheet that yields no record, thrown when no row has failed.
\<close>

datatype error =
    InvalidPhone string
  | NotAnArray
  | MissingNameOrPhone
  | JsTypeError
  | JsonSyntaxError
  | JsonInvalid error
  | EmptySheet
  | MissingColumns
  | NoValidContacts "(nat \<times> error) list"
  | NoContactsFound
  | NothingToExport

section \<open>Phone normalisation\<close>

text \<open>
  \<open>cleanPhoneNumber\<close> of \<open>src/App.tsx\<close>: remove what \<open>\D\<close> matches, remove the
  leading zeros, prepend the country code when the digits neither start with it nor are
  longer than eleven, and throw when fewer than twelve digits are left.
\<close>

definition cleanPhoneNumber :: "string \<Rightarrow> error + string" where
  "cleanPhoneNumber p =
     (let cleaned = filter isDigit p;
          cleaned = dropWhile (\<lambda>c. c = CHR ''0'') cleaned;
          cleaned = (if \<not> startsWith cleaned ''55'' \<and> length cleaned \<le> 11
                     then ''55'' @ cleaned else cleaned)
      in if length cleaned < 12 then Inl (InvalidPhone p) else Inr cleaned)"

text \<open>The three steps as the specification words them, without the length check.\<close>

definition normalized_digits :: "string \<Rightarrow> string" where
  "normalized_digits s =
     (let digits = [c \<leftarrow> s. isDigit c];
          stripped = drop (length (takeWhile (\<lambda>c. c = CHR ''0'') digits)) digits
      in if take 2 stripped \<noteq> ''55'' \<and> length stripped \<le> 11
         then ''55'' @ stripped else stripped)"

section \<open>Import of JSON\<close>

text \<open>
  The callback of \<open>parsed.map\<close> in \<open>validateAndParseJSON\<close>, with the number of ids
  generated so far passed through. Reading \<open>item.name\<close> of \<open>null\<close> throws.
\<close>

definition parseItem :: "host \<Rightarrow> nat \<Rightarrow> jv \<Rightarrow> error + (contact \<times> nat)" where
  "parseItem h n item =
     (if nullish item then Inl JsTypeError
      else if \<not> truthy (js_prop item ''name'') \<or> \<not> truthy (js_prop item ''phone'')
      then Inl MissingNameOrPhone
      else
        let (i, n') = (if truthy (js_prop item ''id'') then (js_prop item ''id'', n)
                       else (JStr (generateId h n), Suc n))
        in case cleanPhoneNumber (js_String h (js_prop item ''phone'')) of
             Inl e \<Rightarrow> Inl e
           | Inr p \<Rightarrow> Inr (\<lparr>id_c = i, name = js_prop item ''name'', phone = p,
                           status = Pendente, customMessage = js_prop item ''customMessage'',
                           timerActive = None, extraInfo = None\<rparr>, n'))"

fun parseItems :: "host \<Rightarrow> nat \<Rightarrow> jv list \<Rightarrow> error + (contact list \<times> nat)" where
  "parseItems h n [] = Inr ([], n)"
| "parseItems h n (item # items) =
     (case parseItem h n item of
        Inl e \<Rightarrow> Inl e
      | Inr (c, n') \<Rightarrow>
          (case parseItems h n' items of
             Inl e \<Rightarrow> Inl e
           | Inr (cs, n'') \<Rightarrow> Inr (c # cs, n'')))"

text \<open>
  \<open>validateAndParseJSON\<close>: whatever is thrown inside the \<open>try\<close> is caught and thrown again
  inside \<open>JsonInvalid\<close>. \<open>validateParsed\<close> is the part of the \<open>try\<close> block that follows
  the call of the parser.
\<close>

definition validateParsed :: "host \<Rightarrow> nat \<Rightarrow> jv \<Rightarrow> error + (contact list \<times> nat)" where
  "validateParsed h n parsed =
     (case parsed of
        JArr items \<Rightarrow>
          (case parseItems h n items of
             Inl e \<Rightarrow> Inl (JsonInvalid e)
           | Inr r \<Rightarrow> Inr r)
      | _ \<Rightarrow> Inl (JsonInvalid NotAnArray))"

definition validateAndParseJSON :: "host \<Rightarrow> nat \<Rightarrow> string \<Rightarrow> error + (contact list \<times> nat)" where
  "validateAndParseJSON h n jsonString =
     (case JSON_parse h jsonString of
        None \<Rightarrow> Inl (JsonInvalid JsonSyntaxError)
      | Some parsed \<Rightarrow> validateParsed h n parsed)"

text \<open>
  The state of the component that the modelled handlers read and write. \<open>shownError\<close> and
  \<open>shownSuccess\<close> are what \<open>showError\<close> and \<open>showSuccess\<close> display (the number of contacts
  of the success message); \<open>timers\<close> are the contact ids of the armed one-shot timers.
\<close>

record app =
  contacts :: "contact list"
  defaultMessage :: string
  jsonInput :: string
  hasChanges :: bool
  shownError :: "error option"
  shownSuccess :: "nat option"
  timers :: "jv list"

definition handlePasteJSON :: "host \<Rightarrow> nat \<Rightarrow> app \<Rightarrow> app" where
  "handlePasteJSON h n st =
     (case validateAndParseJSON h n (jsonInput st) of
        Inr (newContacts, n') \<Rightarrow>
          st\<lparr>contacts := newContacts, jsonInput := [], hasChanges := True,
             shownSuccess := Some (length newContacts)\<rparr>
      | Inl e \<Rightarrow> st\<lparr>shownError := Some e\<rparr>)"

section \<open>Import of a spreadsheet\<close>

text \<open>
  \<open>toLowerCase\<close> and \<open>trim\<close> on the code units the model has: the capital letters are
  \<open>A\<close> to \<open>Z\<close> and the accented capitals \<open>0xC0\<close> to \<open>0xDE\<close> (the multiplication sign
  \<open>0xD7\<close> apart), each 32 below its small letter; white space is tab, line feed, vertical
  tab, form feed, carriage return, space and the no-break space.
\<close>

definition toLowerChar :: "char \<Rightarrow> char" where
  "toLowerChar c =
     (let n = (of_char c :: nat)
      in if (65 \<le> n \<and> n \<le> 90) \<or> (192 \<le> n \<and> n \<le> 222 \<and> n \<noteq> 215)
         then char_of (n + 32) else c)"

definition toLowerCase :: "string \<Rightarrow> string" where
  "toLowerCase s = map toLowerChar s"

definition isSpace :: "char \<Rightarrow> bool" where
  "isSpace c = ((of_char c :: nat) \<in> {9, 10, 11, 12, 13, 32, 160})"

definition trim :: "string \<Rightarrow> string" where
  "trim s = rev (dropWhile isSpace (rev (dropWhile isSpace s)))"

text \<open>
  Assignment \<open>obj[k] = v\<close> to a plain object, seen through the enumeration of its own
  properties: a key the object has keeps its place; a new key that is an array index goes
  among the array indices, in ascending order, before every other key; any other new key
  goes last; \<open>__proto__\<close> is the prototype accessor and adds no own property.
\<close>

definition digitsValue :: "string \<Rightarrow> nat" where
  "digitsValue k = foldl (\<lambda>a c. 10 * a + (of_char c - 48)) 0 k"

definition isArrayIndex :: "string \<Rightarrow> bool" where
  "isArrayIndex k =
     (k \<noteq> [] \<and> list_all isDigit k \<and> (k = ''0'' \<or> hd k \<noteq> CHR ''0'')
      \<and> digitsValue k < 2 ^ 32 - 1)"

fun insertIndex :: "string \<Rightarrow> jv \<Rightarrow> (string \<times> jv) list \<Rightarrow> (string \<times> jv) list" where
  "insertIndex k v [] = [(k, v)]"
| "insertIndex k v ((k', v') # kvs) =
     (if isArrayIndex k' \<and> digitsValue k' < digitsValue k
      then (k', v') # insertIndex k v kvs
      else (k, v) # (k', v') # kvs)"

definition obj_set :: "string \<Rightarrow> jv \<Rightarrow> (string \<times> jv) list \<Rightarrow> (string \<times> jv) list" where
  "obj_set k v kvs =
     (if k = ''__proto__'' then kvs
      else if k \<in> set (map fst kvs)
      then map (\<lambda>(k', v'). if k' = k then (k', v) else (k', v')) kvs
      else if isArrayIndex k then insertIndex k v kvs
      else kvs @ [(k, v)])"

text \<open>
  \<open>jsonData\<close>, the rows that \<open>sheet_to_json\<close> returns with \<open>header: 1\<close>, is an array of
  arrays of values. An array of the host may have holes; a cell is \<open>None\<close> for a hole.
  \<open>row[i]\<close> is \<open>undefined\<close> at a hole and beyond the end of the row.
\<close>

type_synonym cell = "jv option"

definition cell_at :: "cell list \<Rightarrow> nat \<Rightarrow> jv" where
  "cell_at row i =
     (if i < length row then (case row ! i of None \<Rightarrow> JUndef | Some v \<Rightarrow> v) else JUndef)"

text \<open>
  \<open>findIndex\<close> with one of the two predicates of the source. \<open>map\<close> leaves a hole of the
  header row a hole, \<open>findIndex\<close> calls the predicate on \<open>undefined\<close> there, and the
  predicate throws on reading \<open>includes\<close> of it. \<open>Inr None\<close> is the result \<open>-1\<close>.
\<close>

fun findIndex :: "(string \<Rightarrow> bool) \<Rightarrow> string option list \<Rightarrow> nat \<Rightarrow> error + nat option" where
  "findIndex P [] i = Inr None"
| "findIndex P (None # hs) i = Inl JsTypeError"
| "findIndex P (Some x # hs) i = (if P x then Inr (Some i) else findIndex P hs (Suc i))"

definition isNameHeader :: "string \<Rightarrow> bool" where
  "isNameHeader x = (includes_str x ''nome'' \<or> x = ''name'')"

definition isPhoneHeader :: "string \<Rightarrow> bool" where
  "isPhoneHeader x =
     (includes_str x ''telefone'' \<or> includes_str x ''phone'' \<or> includes_str x ''celular'')"

definition lowerHeaders :: "host \<Rightarrow> cell list \<Rightarrow> string option list" where
  "lowerHeaders h hdr = map (map_option (\<lambda>v. trim (toLowerCase (js_String h v)))) hdr"

definition originalHeaders :: "host \<Rightarrow> cell list \<Rightarrow> string option list" where
  "originalHeaders h hdr = map (map_option (\<lambda>v. trim (js_String h v))) hdr"

text \<open>The \<open>forEach\<close> that fills \<open>extraInfo\<close>; it passes over the holes of the header row.\<close>

definition extraInfoOfRow ::
  "host \<Rightarrow> nat \<Rightarrow> nat \<Rightarrow> cell list \<Rightarrow> cell list \<Rightarrow> (string \<times> jv) list" where
  "extraInfoOfRow h nameIndex phoneIndex hdr row =
     foldl (\<lambda>extra (index, hc).
              case hc of
                None \<Rightarrow> extra
              | Some header \<Rightarrow>
                  if index \<noteq> nameIndex \<and> index \<noteq> phoneIndex
                     \<and> cell_at row index \<noteq> JUndef \<and> cell_at row index \<noteq> JNull
                     \<and> cell_at row index \<noteq> JStr []
                  then obj_set header (cell_at row index) extra else extra)
       [] (enumerate 0 (originalHeaders h hdr))"

text \<open>
  The loop over the data rows: \<open>i\<close> is the index of the row in \<open>jsonData\<close>, \<open>n\<close> the number
  of ids generated so far. The result is \<open>contacts\<close> and \<open>errors\<close>; an entry \<open>(k, e)\<close> of
  \<open>errors\<close> is the message of \<open>e\<close> behind the row number \<open>k\<close>. The id is generated
  before the phone is cleaned, so a row that fails has used one.
\<close>

fun processRows ::
  "host \<Rightarrow> nat \<Rightarrow> nat \<Rightarrow> cell list \<Rightarrow> nat \<Rightarrow> nat \<Rightarrow> cell list list
     \<Rightarrow> contact list \<times> (nat \<times> error) list" where
  "processRows h nameIndex phoneIndex hdr i n [] = ([], [])"
| "processRows h nameIndex phoneIndex hdr i n (row # rows) =
     (let nm = cell_at row nameIndex; ph = cell_at row phoneIndex
      in if \<not> truthy nm \<or> \<not> truthy ph
         then processRows h nameIndex phoneIndex hdr (Suc i) n rows
         else
           let extra = extraInfoOfRow h nameIndex phoneIndex hdr row;
               (cs, es) = processRows h nameIndex phoneIndex hdr (Suc i) (Suc n) rows
           in case cleanPhoneNumber (js_String h ph) of
                Inl e \<Rightarrow> (cs, (i + 1, e) # es)
              | Inr p \<Rightarrow>
                  (\<lparr>id_c = JStr (generateId h n), name = JStr (trim (js_String h nm)),
                    phone = p, status = Pendente, customMessage = JUndef,
                    timerActive = None,
                    extraInfo = (if extra \<noteq> [] then Some extra else None)\<rparr> # cs, es))"

text \<open>
  \<open>parseExcelFile\<close> from the rows on (reading the file and the workbook is the library's).
  On success the promise resolves with the contacts; the second component is what
  \<open>console.warn\<close> is given, printed only when it is not empty. With no record, the error
  thrown depends on \<open>errors.length > 0\<close>.
\<close>

definition parseExcelFile ::
  "host \<Rightarrow> nat \<Rightarrow> cell list list \<Rightarrow> error + (contact list \<times> (nat \<times> error) list)" where
  "parseExcelFile h n jsonData =
     (if length jsonData < 2 then Inl EmptySheet
      else
        let headers = lowerHeaders h (hd jsonData)
        in case findIndex isNameHeader headers 0 of
             Inl e \<Rightarrow> Inl e
           | Inr nameIndex \<Rightarrow>
               (case findIndex isPhoneHeader headers 0 of
                  Inl e \<Rightarrow> Inl e
                | Inr phoneIndex \<Rightarrow>
                    (case (nameIndex, phoneIndex) of
                       (Some nIdx, Some pIdx) \<Rightarrow>
                         (let (cs, errors) = processRows h nIdx pIdx (hd jsonData) 1 n (tl jsonData)
                          in if length cs = 0
                             then Inl (if length errors > 0 then NoValidContacts errors
                                       else NoContactsFound)
                             else Inr (cs, errors))
                     | _ \<Rightarrow> Inl MissingColumns)))"

section \<open>Template renderer\<close>

text \<open>
  \<open>template.replace(/{name}/g, value)\<close> is the host's replacement of every match of a
  pattern, from left to right, each search resuming behind the last match. The pattern here
  is a literal, so a match at a position is \<open>startsWith\<close>. The replacement is a string, and
  the host expands it at each match: \<open>$$\<close> is a dollar sign, \<open>$&\<close> the matched text,
  dollar-backquote the part of the subject before the match and dollar-quote
  the part behind it; with no group in the pattern every other dollar sign stands for itself.
\<close>

fun getSubstitution :: "string \<Rightarrow> string \<Rightarrow> string \<Rightarrow> string \<Rightarrow> string" where
  "getSubstitution matched pre post [] = []"
| "getSubstitution matched pre post [c] = [c]"
| "getSubstitution matched pre post (c # d # r) =
     (if c = CHR ''$'' then
        (if d = CHR ''$'' then CHR ''$'' # getSubstitution matched pre post r
         else if d = CHR ''&'' then matched @ getSubstitution matched pre post r
         else if d = CHR 0x60 then pre @ getSubstitution matched pre post r
         else if d = CHR 0x27 then post @ getSubstitution matched pre post r
         else c # getSubstitution matched pre post (d # r))
      else c # getSubstitution matched pre post (d # r))"

function replaceFrom :: "string \<Rightarrow> string \<Rightarrow> string \<Rightarrow> string \<Rightarrow> string" where
  "replaceFrom pat repl pre rest =
     (if rest = [] then []
      else if pat \<noteq> [] \<and> startsWith rest pat
      then getSubstitution pat pre (drop (length pat) rest) repl
           @ replaceFrom pat repl (pre @ pat) (drop (length pat) rest)
      else hd rest # replaceFrom pat repl (pre @ [hd rest]) (tl rest))"
  by pat_completeness auto
termination
  by (relation "measure (\<lambda>(pat, repl, pre, rest). length rest)") auto

declare replaceFrom.simps [simp del]

definition replace_g :: "string \<Rightarrow> string \<Rightarrow> string \<Rightarrow> string" where
  "replace_g pat repl s = replaceFrom pat repl [] s"

text \<open>
  \<open>replacePlaceholders\<close>, the same in both source files. A replacement that is not a
  string is converted to one.
\<close>

definition replacePlaceholders :: "host \<Rightarrow> string \<Rightarrow> contact \<Rightarrow> string" where
  "replacePlaceholders h template c =
     replace_g ''{phone}'' (phone c) (replace_g ''{name}'' (js_String h (name c)) template)"

text \<open>
  The specification's reading of the renderer: every occurrence of a literal replaced by a
  value taken as it is, occurrences found from left to right.
\<close>

fun substitute_all :: "string \<Rightarrow> string \<Rightarrow> string \<Rightarrow> string" where
  "substitute_all pat v [] = []"
| "substitute_all pat v (c # cs) =
     (if pat \<noteq> [] \<and> take (length pat) (c # cs) = pat
      then v @ substitute_all pat v (drop (length pat) (c # cs))
      else c # substitute_all pat v cs)"

section \<open>Contact store\<close>

text \<open>
  The function that \<open>startTimer\<close> hands to \<open>setContacts\<close> when the timer fires. The ids
  it compares with \<open>===\<close> are strings (or numbers, from a JSON import), on which that is
  equality of values.
\<close>

definition timerCallback :: "jv \<Rightarrow> contact list \<Rightarrow> contact list" where
  "timerCallback contactId prev =
     map (\<lambda>c. if id_c c = contactId \<and> status c = MensagemEnviada
              then c\<lparr>status := AguardandoResposta, timerActive := Some False\<rparr>
              else c) prev"

text \<open>The \<open>k\<close>-th armed timer fires: its callback runs once and the timer is gone.\<close>

definition timerFires :: "nat \<Rightarrow> app \<Rightarrow> app" where
  "timerFires k st =
     (if k < length (timers st)
      then st\<lparr>contacts := timerCallback (timers st ! k) (contacts st),
              timers := take k (timers st) @ drop (Suc k) (timers st)\<rparr>
      else st)"

text \<open>
  \<open>handleWhatsAppClick\<close>: the link that is opened, and the new state. A custom message
  that is truthy and not a string has no \<open>replace\<close>, and the call throws before the state
  is touched. One timer is armed for each record that carries the id.
\<close>

definition handleWhatsAppClick :: "host \<Rightarrow> contact \<Rightarrow> app \<Rightarrow> error + (string \<times> app)" where
  "handleWhatsAppClick h c st =
     (case (if truthy (customMessage c) then customMessage c else JStr (defaultMessage st)) of
        JStr template \<Rightarrow>
          (let message = replacePlaceholders h template c;
               encodedMessage = encodeURIComponent h message;
               url = ''https://wa.me/'' @ phone c @ ''?text='' @ encodedMessage
           in Inr (url,
                st\<lparr>contacts :=
                     map (\<lambda>x. if id_c x = id_c c
                              then x\<lparr>status := MensagemEnviada, timerActive := Some True\<rparr>
                              else x) (contacts st),
                   timers := timers st @ map id_c [x \<leftarrow> contacts st. id_c x = id_c c],
                   hasChanges := True\<rparr>))
      | _ \<Rightarrow> Inl JsTypeError)"

definition updateStatus :: "jv \<Rightarrow> ContactStatus \<Rightarrow> app \<Rightarrow> app" where
  "updateStatus contactId newStatus st =
     st\<lparr>contacts :=
          map (\<lambda>c. if id_c c = contactId
                   then c\<lparr>status := newStatus, timerActive := Some False\<rparr> else c)
            (contacts st),
        hasChanges := True\<rparr>"

section \<open>Export\<close>









section \<open>Auxiliary notions for the statements\<close>

text \<open>An element that the callback of \<open>validateAndParseJSON\<close> turns into a record.\<close>

definition itemAccepted :: "host \<Rightarrow> jv \<Rightarrow> bool" where
  "itemAccepted h item =
     (\<not> nullish item \<and> truthy (js_prop item ''name'') \<and> truthy (js_prop item ''phone'')
      \<and> \<not> isl (cleanPhoneNumber (js_String h (js_prop item ''phone''))))"

text \<open>
  A host for the closed examples. Its parser knows the three texts below; its ids are
  distinct; the examples convert nothing but strings, and its calendar knows the serial
  number 45000.
\<close>

definition quoted :: "string \<Rightarrow> string" where
  "quoted s = CHR 0x22 # s @ [CHR 0x22]"

definition json_two_contacts :: string where
  "json_two_contacts =
     ''[{'' @ quoted ''id'' @ '':'' @ quoted ''a1'' @ '','' @ quoted ''name'' @ '':''
     @ quoted ''Ana'' @ '','' @ quoted ''phone'' @ '':'' @ quoted ''11999999999'' @ ''},{''
     @ quoted ''name'' @ '':'' @ quoted ''Bia'' @ '','' @ quoted ''phone'' @ '':''
     @ quoted ''(21) 98888-7777'' @ ''}]''"

definition json_bad_phone :: string where
  "json_bad_phone =
     ''[{'' @ quoted ''name'' @ '':'' @ quoted ''Ana'' @ '','' @ quoted ''phone'' @ '':''
     @ quoted ''11999999999'' @ ''},{'' @ quoted ''name'' @ '':'' @ quoted ''Bia'' @ '',''
     @ quoted ''phone'' @ '':'' @ quoted ''123'' @ ''}]''"

definition json_name_only :: string where
  "json_name_only = ''[{'' @ quoted ''name'' @ '':'' @ quoted ''Ana'' @ ''}]''"

definition test_parse :: "string \<Rightarrow> jv option" where
  "test_parse s =
     (if s = json_two_contacts
      then Some (JArr [JObj [(''id'', JStr ''a1''), (''name'', JStr ''Ana''),
                             (''phone'', JStr ''11999999999'')],
                       JObj [(''name'', JStr ''Bia''), (''phone'', JStr ''(21) 98888-7777'')]])
      else if s = json_bad_phone
      then Some (JArr [JObj [(''name'', JStr ''Ana''), (''phone'', JStr ''11999999999'')],
                       JObj [(''name'', JStr ''Bia''), (''phone'', JStr ''123'')]])
      else if s = json_name_only
      then Some (JArr [JObj [(''name'', JStr ''Ana'')]])
      else None)"

definition test_host :: host where
  "test_host =
     \<lparr>JSON_parse = test_parse,
      String_of = (\<lambda>v. []),
      generateId = (\<lambda>n. ''generated-'' @ replicate (Suc n) (CHR ''i'')),
      excelDate = (\<lambda>r. if r = 45000 then ''15/03/2023'' else []),
      encodeURIComponent = (\<lambda>s. s)\<rparr>"

definition test_app :: app where
  "test_app =
     \<lparr>contacts = [\<lparr>id_c = JStr ''k1'', name = JStr ''Caio'', phone = ''5531977776666'',
                    status = Respondido, customMessage = JUndef, timerActive = Some False,
                    extraInfo = None\<rparr>],
      defaultMessage = ''Oi {name}'',
      jsonInput = json_bad_phone,
      hasChanges = False,
      shownError = None,
      shownSuccess = None,
      timers = []\<rparr>"

text \<open>
  A header cell that names a name column, or a phone column, as the source tests it: the
  text of the cell in small letters, without the white space around it.
\<close>

definition nameLike :: "host \<Rightarrow> jv \<Rightarrow> bool" where
  "nameLike h v =
     (let x = trim (toLowerCase (js_String h v)) in includes_str x ''nome'' \<or> x = ''name'')"

definition phoneLike :: "host \<Rightarrow> jv \<Rightarrow> bool" where
  "phoneLike h v =
     (let x = trim (toLowerCase (js_String h v))
      in includes_str x ''telefone'' \<or> includes_str x ''phone'' \<or> includes_str x ''celular'')"

text \<open>
  What becomes of one data row, given the columns of the name and of the phone: \<open>None\<close>
  when it lacks a name or a phone, else the result of normalising its phone.
\<close>

definition rowOutcome :: "host \<Rightarrow> nat \<Rightarrow> nat \<Rightarrow> cell list \<Rightarrow> (error + string) option" where
  "rowOutcome h a b row =
     (if truthy (cell_at row a) \<and> truthy (cell_at row b)
      then Some (cleanPhoneNumber (js_String h (cell_at row b))) else None)"

definition validPhones :: "host \<Rightarrow> nat \<Rightarrow> nat \<Rightarrow> cell list list \<Rightarrow> string list" where
  "validPhones h a b rows =
     List.map_filter (\<lambda>row. case rowOutcome h a b row of Some (Inr p) \<Rightarrow> Some p | _ \<Rightarrow> None) rows"

definition rowFailures :: "host \<Rightarrow> nat \<Rightarrow> nat \<Rightarrow> nat \<Rightarrow> cell list list \<Rightarrow> (nat \<times> error) list" where
  "rowFailures h a b i rows =
     List.map_filter
       (\<lambda>(k, row). case rowOutcome h a b row of Some (Inl e) \<Rightarrow> Some (k + 1, e) | _ \<Rightarrow> None)
       (enumerate i rows)"

definition test_sheet :: "cell list list" where
  "test_sheet =
     [[Some (JStr ''Nome''), Some (JStr '' Telefone ''), Some (JStr ''Cidade'')],
      [Some (JStr ''Ana''), Some (JStr ''11999999999''), Some (JStr ''SP'')],
      [None, Some (JStr ''21977776666'')],
      [Some (JStr ''Bia''), Some (JStr ''123''), Some (JStr ''RJ'')],
      [Some (JStr '' Caio ''), Some (JStr ''(21) 98888-7777'')]]"

definition test_contact :: contact where
  "test_contact =
     \<lparr>id_c = JStr ''k2'', name = JStr ''Ana'', phone = ''5511999999999'',
      status = Pendente, customMessage = JUndef, timerActive = None,
      extraInfo = Some [(''Cidade'', JStr ''SP'')]\<rparr>"


text \<open>The state in which \<open>test_contact\<close> is the collection, before and after its dispatch.\<close>

definition test_store :: app where
  "test_store = test_app\<lparr>contacts := [test_contact], jsonInput := []\<rparr>"

definition test_dispatched :: app where
  "test_dispatched =
     test_store\<lparr>contacts := [test_contact\<lparr>status := MensagemEnviada, timerActive := Some True\<rparr>],
                timers := [JStr ''k2''], hasChanges := True\<rparr>"





text \<open>A sheet in which every data row lacks a name or a phone.\<close>

definition test_skipped_sheet :: "cell list list" where
  "test_skipped_sheet =
     [[Some (JStr ''Nome''), Some (JStr ''Telefone'')],
      [None, Some (JStr ''11999999999'')],
      [Some (JStr ''Bia'')]]"



section \<open>Properties\<close>

lemma startsWith_take: "startsWith s p \<longleftrightarrow> take (length p) s = p"
  by (induction s p rule: startsWith.induct) auto

lemma startsWith_55: "startsWith s ''55'' \<longleftrightarrow> take 2 s = ''55''"
  using startsWith_take [of s "''55''"] by (simp add: numeral_2_eq_2)

lemma cleanPhoneNumber_steps:
  "cleanPhoneNumber s =
     (if length (normalized_digits s) < 12 then Inl (InvalidPhone s)
      else Inr (normalized_digits s))"
  unfolding cleanPhoneNumber_def normalized_digits_def Let_def startsWith_55 dropWhile_eq_drop
  by simp

text \<open>
  C1. For every input string, \<open>cleanPhoneNumber\<close> computes the digits of the input
  without leading zeros, with the country code in front when they neither begin with it
  nor are longer than eleven; it returns that string exactly when it has at least twelve
  characters and otherwise fails with the invalid-phone error carrying the input. The three
  examples of the specification behave as it says.
\<close>

theorem cleanPhoneNumber_spec:
  "(cleanPhoneNumber s = Inr r \<longleftrightarrow> r = normalized_digits s \<and> 12 \<le> length r)
   \<and> (cleanPhoneNumber s = Inl e \<longleftrightarrow> e = InvalidPhone s \<and> length (normalized_digits s) < 12)
   \<and> cleanPhoneNumber ''11999999999'' = Inr ''5511999999999''
   \<and> cleanPhoneNumber ''+55 11 99999-9999'' = Inr ''5511999999999''
   \<and> cleanPhoneNumber ''123'' = Inl (InvalidPhone ''123'')"
proof -
  have ex: "cleanPhoneNumber ''11999999999'' = Inr ''5511999999999''"
    "cleanPhoneNumber ''+55 11 99999-9999'' = Inr ''5511999999999''"
    "cleanPhoneNumber ''123'' = Inl (InvalidPhone ''123'')"
    by (simp_all add: cleanPhoneNumber_def isDigit_def)
  show ?thesis
    using ex by (auto simp: cleanPhoneNumber_steps)
qed

theorem cleanPhoneNumber_spec_witness:
  "cleanPhoneNumber ''011 98888-7777'' = Inr ''5511988887777''
   \<and> normalized_digits ''011 98888-7777'' = ''5511988887777''"
  using cleanPhoneNumber_spec [of "''011 98888-7777''" "''5511988887777''"]
  by (simp add: normalized_digits_def isDigit_def)

lemma cleanPhoneNumber_digits:
  assumes "cleanPhoneNumber s = Inr c"
  shows "filter isDigit c = c" and "dropWhile (\<lambda>x. x = CHR ''0'') c = c" and "12 \<le> length c"
proof -
  define d where "d = dropWhile (\<lambda>x. x = CHR ''0'') (filter isDigit s)"
  have dd: "\<forall>x \<in> set d. isDigit x"
    unfolding d_def using set_dropWhileD by fastforce
  have d0: "d = [] \<or> hd d \<noteq> CHR ''0''"
    unfolding d_def using hd_dropWhile [of "\<lambda>x. x = CHR ''0''" "filter isDigit s"] by blast
  have c: "(c = d \<or> c = ''55'' @ d) \<and> 12 \<le> length c"
    using assms unfolding cleanPhoneNumber_def Let_def d_def [symmetric]
    by (auto split: if_splits)
  then show "12 \<le> length c" by simp
  have five: "isDigit (CHR ''5'')" by (simp add: isDigit_def)
  have "\<forall>x \<in> set c. isDigit x"
    using c dd five by auto
  then show "filter isDigit c = c"
    by (simp add: filter_id_conv)
  have "c = [] \<or> hd c \<noteq> CHR ''0''"
    using c d0 by (cases d) auto
  then show "dropWhile (\<lambda>x. x = CHR ''0'') c = c"
    by (cases c) auto
qed

text \<open>
  C10. Normalisation is idempotent on what it returns: when \<open>cleanPhoneNumber\<close> succeeds
  with \<open>c\<close>, it succeeds on \<open>c\<close> and returns \<open>c\<close>.
\<close>

theorem cleanPhoneNumber_idempotent:
  "cleanPhoneNumber s = Inr c \<Longrightarrow> cleanPhoneNumber c = Inr c"
  using cleanPhoneNumber_digits [of s c]
  by (simp add: cleanPhoneNumber_def Let_def)

theorem cleanPhoneNumber_idempotent_witness:
  "cleanPhoneNumber ''(11) 99999-9999'' = Inr ''5511999999999''
   \<and> cleanPhoneNumber ''5511999999999'' = Inr ''5511999999999''"
proof -
  have h: "cleanPhoneNumber ''(11) 99999-9999'' = Inr ''5511999999999''"
    by (simp add: cleanPhoneNumber_def isDigit_def)
  show ?thesis using h cleanPhoneNumber_idempotent [OF h] by simp
qed

subsection \<open>Import of JSON\<close>

lemma parseItem_Inr:
  assumes "parseItem h n item = Inr (c, n')"
  shows "itemAccepted h item"
    and "cleanPhoneNumber (js_String h (js_prop item ''phone'')) = Inr (phone c)"
    and "status c = Pendente"
    and "name c = js_prop item ''name''"
    and "truthy (js_prop item ''id'') \<Longrightarrow> id_c c = js_prop item ''id'' \<and> n' = n"
    and "\<not> truthy (js_prop item ''id'') \<Longrightarrow> id_c c = JStr (generateId h n) \<and> n' = Suc n"
  using assms
  by (auto simp: parseItem_def itemAccepted_def Let_def split: if_splits sum.splits)

lemma parseItem_isl: "isl (parseItem h n item) \<longleftrightarrow> \<not> itemAccepted h item"
  by (auto simp: parseItem_def itemAccepted_def Let_def split: if_splits sum.splits)

lemma parseItem_error:
  "parseItem h n item = Inl e \<longleftrightarrow>
     (if nullish item then e = JsTypeError
      else if \<not> truthy (js_prop item ''name'') \<or> \<not> truthy (js_prop item ''phone'')
      then e = MissingNameOrPhone
      else cleanPhoneNumber (js_String h (js_prop item ''phone'')) = Inl e)"
  by (auto simp: parseItem_def Let_def split: if_splits sum.splits)


lemma parseItems_isl:
  "isl (parseItems h n items) \<longleftrightarrow> (\<exists>item \<in> set items. \<not> itemAccepted h item)"
proof (induction items arbitrary: n)
  case Nil
  show ?case by simp
next
  case (Cons item items)
  show ?case
  proof (cases "parseItem h n item")
    case (Inl e)
    then have "\<not> itemAccepted h item"
      using parseItem_isl [of h n item] by simp
    with Inl show ?thesis by simp
  next
    case (Inr r)
    obtain c n' where r: "r = (c, n')" by (cases r)
    have acc: "itemAccepted h item"
      using Inr parseItem_isl [of h n item] by auto
    show ?thesis
      using Inr r acc Cons.IH [of n']
      by (auto split: sum.splits)
  qed
qed


lemma parseItems_first_error:
  "parseItems h n items = Inl e \<Longrightarrow>
     \<exists>pre item post k. items = pre @ item # post \<and> (\<forall>x \<in> set pre. itemAccepted h x)
        \<and> parseItem h k item = Inl e"
proof (induction items arbitrary: n)
  case Nil
  then show ?case by simp
next
  case (Cons item items)
  show ?case
  proof (cases "parseItem h n item")
    case (Inl e')
    with Cons.prems have "e' = e" by simp
    with Inl show ?thesis by (intro exI [of _ "[]"] exI [of _ item] exI [of _ items] exI [of _ n]) simp
  next
    case (Inr r)
    obtain c n1 where r: "r = (c, n1)" by (cases r)
    have acc: "itemAccepted h item" using Inr r parseItem_Inr(1) by blast
    from Cons.prems Inr r have "parseItems h n1 items = Inl e"
      by (auto split: sum.splits)
    from Cons.IH [OF this] obtain pre x post k where
      "items = pre @ x # post" "\<forall>y \<in> set pre. itemAccepted h y" "parseItem h k x = Inl e"
      by blast
    with acc show ?thesis
      by (intro exI [of _ "item # pre"] exI [of _ x] exI [of _ post] exI [of _ k]) simp
  qed
qed




text \<open>
  C3. In JSON-mode import, when the phone of some element of the parsed array does not
  normalise, \<open>validateAndParseJSON\<close> fails with an error built around the cause, and
  \<open>handlePasteJSON\<close> changes nothing of the state but the error it shows: no record is
  imported and the collection held before is the collection held after.
\<close>

theorem handlePasteJSON_atomic:
  assumes "JSON_parse h (jsonInput st) = Some (JArr items)"
    and "item \<in> set items"
    and "isl (cleanPhoneNumber (js_String h (js_prop item ''phone'')))"
  shows "\<exists>e. validateAndParseJSON h n (jsonInput st) = Inl (JsonInvalid e)
            \<and> handlePasteJSON h n st = st\<lparr>shownError := Some (JsonInvalid e)\<rparr>
            \<and> contacts (handlePasteJSON h n st) = contacts st"
proof -
  from assms(2,3) have "\<exists>x \<in> set items. \<not> itemAccepted h x"
    by (auto simp: itemAccepted_def)
  then have "isl (parseItems h n items)"
    by (simp add: parseItems_isl)
  then obtain e where e: "parseItems h n items = Inl e"
    by (cases "parseItems h n items") auto
  then have v: "validateAndParseJSON h n (jsonInput st) = Inl (JsonInvalid e)"
    using assms(1) by (simp add: validateAndParseJSON_def validateParsed_def)
  then show ?thesis
    by (simp add: handlePasteJSON_def)
qed

theorem handlePasteJSON_atomic_witness:
  "validateAndParseJSON test_host 0 (jsonInput test_app) = Inl (JsonInvalid (InvalidPhone ''123''))
   \<and> contacts (handlePasteJSON test_host 0 test_app) = contacts test_app
   \<and> shownError (handlePasteJSON test_host 0 test_app) = Some (JsonInvalid (InvalidPhone ''123''))"
proof -
  have p: "JSON_parse test_host (jsonInput test_app)
     = Some (JArr [JObj [(''name'', JStr ''Ana''), (''phone'', JStr ''11999999999'')],
                   JObj [(''name'', JStr ''Bia''), (''phone'', JStr ''123'')]])"
    by (simp add: test_host_def test_parse_def test_app_def json_bad_phone_def
        json_two_contacts_def quoted_def)
  have m: "JObj [(''name'', JStr ''Bia''), (''phone'', JStr ''123'')]
      \<in> set [JObj [(''name'', JStr ''Ana''), (''phone'', JStr ''11999999999'')],
              JObj [(''name'', JStr ''Bia''), (''phone'', JStr ''123'')]]"
    by simp
  have f: "isl (cleanPhoneNumber (js_String test_host
      (js_prop (JObj [(''name'', JStr ''Bia''), (''phone'', JStr ''123'')]) ''phone'')))"
    by (simp add: js_prop_def js_String_def cleanPhoneNumber_def isDigit_def)
  have v: "validateAndParseJSON test_host 0 (jsonInput test_app)
      = Inl (JsonInvalid (InvalidPhone ''123''))"
    unfolding validateAndParseJSON_def p
    by (simp add: validateParsed_def parseItem_def js_prop_def nullish_def js_String_def
        cleanPhoneNumber_def isDigit_def)
  show ?thesis
    using handlePasteJSON_atomic [OF p m f, of 0] v by auto
qed

text \<open>
  C4, as amended. JSON-mode import fails exactly when the text does not parse, or what was
  parsed is not an array, or some element of the array is \<open>null\<close>, or has no truthy name,
  or has no truthy phone, or has a phone that does not normalise. The error is the
  not-an-array error exactly when what was parsed is not an array, and the missing-field
  error when the first element not accepted is one that lacks a name or a phone; so an
  element that has only one of the two fields is rejected.
\<close>

theorem validateAndParseJSON_fails_iff:
  "(isl (validateAndParseJSON h n s) \<longleftrightarrow>
      (case JSON_parse h s of
         None \<Rightarrow> True
       | Some (JArr items) \<Rightarrow> \<exists>item \<in> set items. \<not> itemAccepted h item
       | Some _ \<Rightarrow> True))
   \<and> (validateAndParseJSON h n s = Inl (JsonInvalid NotAnArray) \<longleftrightarrow>
        (\<exists>parsed. JSON_parse h s = Some parsed \<and> (\<forall>items. parsed \<noteq> JArr items)))
   \<and> (JSON_parse h s = Some (JArr (pre @ item # post)) \<and> (\<forall>x \<in> set pre. itemAccepted h x)
        \<and> \<not> nullish item
        \<and> (\<not> truthy (js_prop item ''name'') \<or> \<not> truthy (js_prop item ''phone''))
      \<longrightarrow> validateAndParseJSON h n s = Inl (JsonInvalid MissingNameOrPhone))"
proof (intro conjI impI)
  show "isl (validateAndParseJSON h n s) \<longleftrightarrow>
      (case JSON_parse h s of
         None \<Rightarrow> True
       | Some (JArr items) \<Rightarrow> \<exists>item \<in> set items. \<not> itemAccepted h item
       | Some _ \<Rightarrow> True)"
  proof (cases "JSON_parse h s")
    case None
    then show ?thesis by (simp add: validateAndParseJSON_def)
  next
    case (Some parsed)
    show ?thesis
    proof (cases "\<exists>items. parsed = JArr items")
      case True
      then obtain items where items: "parsed = JArr items" by blast
      have "isl (validateParsed h n (JArr items)) = isl (parseItems h n items)"
        by (cases "parseItems h n items") (simp_all add: validateParsed_def)
      then show ?thesis
        using Some items parseItems_isl [of h n items]
        by (simp add: validateAndParseJSON_def)
    next
      case False
      then show ?thesis
        using Some by (cases parsed) (simp_all add: validateAndParseJSON_def validateParsed_def)
    qed
  qed
next
  have ne: "parseItems h n items \<noteq> Inl NotAnArray" for items
  proof
    assume "parseItems h n items = Inl NotAnArray"
    from parseItems_first_error [OF this] obtain item k where "parseItem h k item = Inl NotAnArray"
      by blast
    then show False
      by (auto simp: parseItem_error cleanPhoneNumber_def Let_def split: if_splits)
  qed
  show "validateAndParseJSON h n s = Inl (JsonInvalid NotAnArray) \<longleftrightarrow>
        (\<exists>parsed. JSON_parse h s = Some parsed \<and> (\<forall>items. parsed \<noteq> JArr items))"
    using ne
    by (auto simp: validateAndParseJSON_def validateParsed_def split: option.splits jv.splits sum.splits)
next
  assume a: "JSON_parse h s = Some (JArr (pre @ item # post)) \<and> (\<forall>x \<in> set pre. itemAccepted h x)
        \<and> \<not> nullish item
        \<and> (\<not> truthy (js_prop item ''name'') \<or> \<not> truthy (js_prop item ''phone''))"
  then have "\<not> itemAccepted h item" by (auto simp: itemAccepted_def)
  then have "isl (parseItems h n (pre @ item # post))"
    by (simp add: parseItems_isl)
  then obtain e where e: "parseItems h n (pre @ item # post) = Inl e"
    by (cases "parseItems h n (pre @ item # post)") auto
  from parseItems_first_error [OF e] obtain pre' x post' k where
    s: "pre @ item # post = pre' @ x # post'" and acc: "\<forall>y \<in> set pre'. itemAccepted h y"
    and px: "parseItem h k x = Inl e"
    by blast
  have nx: "\<not> itemAccepted h x"
    using px parseItem_isl [of h k x] by simp
  have "pre' = pre \<and> x = item"
  proof -
    have "length pre' = length pre"
    proof (rule ccontr)
      assume d: "length pre' \<noteq> length pre"
      show False
      proof (cases "length pre' < length pre")
        case True
        then have "(pre @ item # post) ! length pre' = pre ! length pre'"
          by (simp add: nth_append)
        moreover have "(pre' @ x # post') ! length pre' = x" by simp
        ultimately have "x \<in> set pre" using s True by (metis nth_mem)
        with a nx show False by blast
      next
        case False
        with d have l: "length pre < length pre'" by simp
        then have "(pre' @ x # post') ! length pre = pre' ! length pre"
          by (simp add: nth_append)
        moreover have "(pre @ item # post) ! length pre = item" by simp
        ultimately have "item \<in> set pre'" using s l by (metis nth_mem)
        with acc \<open>\<not> itemAccepted h item\<close> show False by blast
      qed
    qed
    with s show ?thesis by (metis append_eq_append_conv list.inject)
  qed
  with px a have "e = MissingNameOrPhone"
    by (auto simp: parseItem_error)
  with e a show "validateAndParseJSON h n s = Inl (JsonInvalid MissingNameOrPhone)"
    by (simp add: validateAndParseJSON_def validateParsed_def)
qed

theorem validateAndParseJSON_fails_iff_witness:
  "isl (validateAndParseJSON test_host 0 json_name_only)
   \<and> validateAndParseJSON test_host 0 json_name_only = Inl (JsonInvalid MissingNameOrPhone)
   \<and> validateAndParseJSON test_host 0 ''{}'' = Inl (JsonInvalid JsonSyntaxError)"
proof -
  have p: "JSON_parse test_host json_name_only = Some (JArr ([] @ JObj [(''name'', JStr ''Ana'')] # []))"
    by (simp add: test_host_def test_parse_def json_name_only_def json_bad_phone_def
        json_two_contacts_def quoted_def)
  have q: "JSON_parse test_host ''{}'' = None"
    by (simp add: test_host_def test_parse_def json_name_only_def json_bad_phone_def
        json_two_contacts_def quoted_def)
  have i: "\<not> nullish (JObj [(''name'', JStr ''Ana'')])
      \<and> \<not> truthy (js_prop (JObj [(''name'', JStr ''Ana'')]) ''phone'')"
    by (simp add: nullish_def js_prop_def)
  show ?thesis
    using validateAndParseJSON_fails_iff [of test_host 0 json_name_only "[]"
        "JObj [(''name'', JStr ''Ana'')]" "[]"] p i q
    by (simp add: validateAndParseJSON_def)
qed

text \<open>
  The claim C4 as it is stated fails: an element that has a name and no phone has one of
  the two fields, and the import rejects it for the missing one.
\<close>

theorem validateParsed_name_only_counterexample:
  "truthy (js_prop (JObj [(''name'', JStr ''Ana'')]) ''name'')
   \<and> validateParsed test_host 0 (JArr [JObj [(''name'', JStr ''Ana'')]])
     = Inl (JsonInvalid MissingNameOrPhone)"
  by (simp add: validateParsed_def parseItem_def js_prop_def nullish_def)

subsection \<open>Import of a spreadsheet\<close>

lemma findIndex_filled:
  "None \<notin> set hs \<Longrightarrow>
     (\<exists>k. findIndex P hs i = Inr (Some k) \<and> i \<le> k \<and> k - i < length hs
          \<and> (\<exists>x. hs ! (k - i) = Some x \<and> P x)
          \<and> (\<forall>j < k - i. \<exists>y. hs ! j = Some y \<and> \<not> P y))
     \<or> (findIndex P hs i = Inr None \<and> (\<forall>x. Some x \<in> set hs \<longrightarrow> \<not> P x))"
proof (induction hs arbitrary: i)
  case Nil
  then show ?case by simp
next
  case (Cons c hs)
  then obtain x where c: "c = Some x" by (cases c) auto
  show ?case
  proof (cases "P x")
    case True
    then show ?thesis using c by auto
  next
    case False
    from Cons.prems have nh: "None \<notin> set hs" by simp
    from Cons.IH [OF nh, of "Suc i"] show ?thesis
    proof
      assume "\<exists>k. findIndex P hs (Suc i) = Inr (Some k) \<and> Suc i \<le> k \<and> k - Suc i < length hs
          \<and> (\<exists>x. hs ! (k - Suc i) = Some x \<and> P x)
          \<and> (\<forall>j < k - Suc i. \<exists>y. hs ! j = Some y \<and> \<not> P y)"
      then obtain k where k: "findIndex P hs (Suc i) = Inr (Some k)" "Suc i \<le> k"
        "k - Suc i < length hs" "\<exists>x. hs ! (k - Suc i) = Some x \<and> P x"
        "\<forall>j < k - Suc i. \<exists>y. hs ! j = Some y \<and> \<not> P y"
        by blast
      have d: "k - i = Suc (k - Suc i)" using k(2) by simp
      have "\<exists>y. (c # hs) ! j = Some y \<and> \<not> P y" if "j < k - i" for j
      proof (cases j)
        case 0
        then show ?thesis using c False by simp
      next
        case (Suc j')
        with that d have "j' < k - Suc i" by simp
        with k(5) Suc show ?thesis by simp
      qed
      then have "findIndex P (c # hs) i = Inr (Some k) \<and> i \<le> k \<and> k - i < length (c # hs)
          \<and> (\<exists>x. (c # hs) ! (k - i) = Some x \<and> P x)
          \<and> (\<forall>j < k - i. \<exists>y. (c # hs) ! j = Some y \<and> \<not> P y)"
        using k c False d by simp
      then show ?thesis by blast
    next
      assume "findIndex P hs (Suc i) = Inr None \<and> (\<forall>x. Some x \<in> set hs \<longrightarrow> \<not> P x)"
      then show ?thesis using c False by auto
    qed
  qed
qed

lemma lowerHeaders_filled: "None \<notin> set hdr \<Longrightarrow> None \<notin> set (lowerHeaders h hdr)"
  by (auto simp: lowerHeaders_def)

lemma lowerHeaders_nth:
  "k < length hdr \<Longrightarrow> lowerHeaders h hdr ! k = Some x \<Longrightarrow>
     \<exists>v. hdr ! k = Some v \<and> x = trim (toLowerCase (js_String h v))"
  by (cases "hdr ! k") (auto simp: lowerHeaders_def)

lemma lowerHeaders_mem:
  "Some x \<in> set (lowerHeaders h hdr)
     \<longleftrightarrow> (\<exists>v. Some v \<in> set hdr \<and> x = trim (toLowerCase (js_String h v)))"
proof (induction hdr)
  case Nil
  show ?case by (simp add: lowerHeaders_def)
next
  case (Cons c hdr)
  then show ?case by (cases c) (auto simp: lowerHeaders_def)
qed

lemma lowerHeaders_name:
  "(\<exists>x. Some x \<in> set (lowerHeaders h hdr) \<and> isNameHeader x)
     \<longleftrightarrow> (\<exists>v. Some v \<in> set hdr \<and> nameLike h v)"
  unfolding lowerHeaders_mem nameLike_def isNameHeader_def Let_def by blast

lemma lowerHeaders_phone:
  "(\<exists>x. Some x \<in> set (lowerHeaders h hdr) \<and> isPhoneHeader x)
     \<longleftrightarrow> (\<exists>v. Some v \<in> set hdr \<and> phoneLike h v)"
  unfolding lowerHeaders_mem phoneLike_def isPhoneHeader_def Let_def by blast

lemma findIndex_name:
  assumes "None \<notin> set hdr"
  shows "(\<exists>k < length hdr. findIndex isNameHeader (lowerHeaders h hdr) 0 = Inr (Some k)
            \<and> (\<exists>v. hdr ! k = Some v \<and> nameLike h v)
            \<and> (\<forall>j < k. \<exists>w. hdr ! j = Some w \<and> \<not> nameLike h w))
         \<or> (findIndex isNameHeader (lowerHeaders h hdr) 0 = Inr None
            \<and> \<not> (\<exists>v. Some v \<in> set hdr \<and> nameLike h v))"
proof -
  have len: "length (lowerHeaders h hdr) = length hdr" by (simp add: lowerHeaders_def)
  have nl: "isNameHeader (trim (toLowerCase (js_String h v))) = nameLike h v" for v
    by (simp add: nameLike_def isNameHeader_def Let_def)
  from findIndex_filled [OF lowerHeaders_filled [OF assms], of isNameHeader h 0]
  show ?thesis
  proof
    assume "\<exists>k. findIndex isNameHeader (lowerHeaders h hdr) 0 = Inr (Some k) \<and> 0 \<le> k
        \<and> k - 0 < length (lowerHeaders h hdr)
        \<and> (\<exists>x. lowerHeaders h hdr ! (k - 0) = Some x \<and> isNameHeader x)
        \<and> (\<forall>j < k - 0. \<exists>y. lowerHeaders h hdr ! j = Some y \<and> \<not> isNameHeader y)"
    then obtain k where k: "findIndex isNameHeader (lowerHeaders h hdr) 0 = Inr (Some k)"
      "k < length hdr" "\<exists>x. lowerHeaders h hdr ! k = Some x \<and> isNameHeader x"
      "\<forall>j < k. \<exists>y. lowerHeaders h hdr ! j = Some y \<and> \<not> isNameHeader y"
      using len by auto
    have a: "\<exists>v. hdr ! k = Some v \<and> nameLike h v"
      using k(2,3) lowerHeaders_nth [of k hdr h] nl by blast
    have b: "\<exists>w. hdr ! j = Some w \<and> \<not> nameLike h w" if "j < k" for j
    proof -
      from that k(4) obtain y where y: "lowerHeaders h hdr ! j = Some y" "\<not> isNameHeader y"
        by blast
      from that k(2) have "j < length hdr" by simp
      from lowerHeaders_nth [OF this y(1)] y(2) nl show ?thesis by blast
    qed
    show ?thesis using k(1,2) a b by blast
  next
    assume "findIndex isNameHeader (lowerHeaders h hdr) 0 = Inr None
        \<and> (\<forall>x. Some x \<in> set (lowerHeaders h hdr) \<longrightarrow> \<not> isNameHeader x)"
    then show ?thesis using lowerHeaders_name [of h hdr] by blast
  qed
qed

lemma findIndex_phone:
  assumes "None \<notin> set hdr"
  shows "(\<exists>k < length hdr. findIndex isPhoneHeader (lowerHeaders h hdr) 0 = Inr (Some k)
            \<and> (\<exists>v. hdr ! k = Some v \<and> phoneLike h v)
            \<and> (\<forall>j < k. \<exists>w. hdr ! j = Some w \<and> \<not> phoneLike h w))
         \<or> (findIndex isPhoneHeader (lowerHeaders h hdr) 0 = Inr None
            \<and> \<not> (\<exists>v. Some v \<in> set hdr \<and> phoneLike h v))"
proof -
  have len: "length (lowerHeaders h hdr) = length hdr" by (simp add: lowerHeaders_def)
  have nl: "isPhoneHeader (trim (toLowerCase (js_String h v))) = phoneLike h v" for v
    by (simp add: phoneLike_def isPhoneHeader_def Let_def)
  from findIndex_filled [OF lowerHeaders_filled [OF assms], of isPhoneHeader h 0]
  show ?thesis
  proof
    assume "\<exists>k. findIndex isPhoneHeader (lowerHeaders h hdr) 0 = Inr (Some k) \<and> 0 \<le> k
        \<and> k - 0 < length (lowerHeaders h hdr)
        \<and> (\<exists>x. lowerHeaders h hdr ! (k - 0) = Some x \<and> isPhoneHeader x)
        \<and> (\<forall>j < k - 0. \<exists>y. lowerHeaders h hdr ! j = Some y \<and> \<not> isPhoneHeader y)"
    then obtain k where k: "findIndex isPhoneHeader (lowerHeaders h hdr) 0 = Inr (Some k)"
      "k < length hdr" "\<exists>x. lowerHeaders h hdr ! k = Some x \<and> isPhoneHeader x"
      "\<forall>j < k. \<exists>y. lowerHeaders h hdr ! j = Some y \<and> \<not> isPhoneHeader y"
      using len by auto
    have a: "\<exists>v. hdr ! k = Some v \<and> phoneLike h v"
      using k(2,3) lowerHeaders_nth [of k hdr h] nl by blast
    have b: "\<exists>w. hdr ! j = Some w \<and> \<not> phoneLike h w" if "j < k" for j
    proof -
      from that k(4) obtain y where y: "lowerHeaders h hdr ! j = Some y" "\<not> isPhoneHeader y"
        by blast
      from that k(2) have "j < length hdr" by simp
      from lowerHeaders_nth [OF this y(1)] y(2) nl show ?thesis by blast
    qed
    show ?thesis using k(1,2) a b by blast
  next
    assume "findIndex isPhoneHeader (lowerHeaders h hdr) 0 = Inr None
        \<and> (\<forall>x. Some x \<in> set (lowerHeaders h hdr) \<longrightarrow> \<not> isPhoneHeader x)"
    then show ?thesis using lowerHeaders_phone [of h hdr] by blast
  qed
qed

lemma findIndex_name_None:
  assumes "None \<notin> set hdr"
  shows "findIndex isNameHeader (lowerHeaders h hdr) 0 = Inr None
           \<longleftrightarrow> \<not> (\<exists>v. Some v \<in> set hdr \<and> nameLike h v)"
proof -
  have "\<exists>v. Some v \<in> set hdr \<and> nameLike h v"
    if "k < length hdr" "hdr ! k = Some v" "nameLike h v" for k v
    using that nth_mem [of k hdr] by auto
  then show ?thesis
    using findIndex_name [OF assms, of h] by fastforce
qed

lemma findIndex_phone_None:
  assumes "None \<notin> set hdr"
  shows "findIndex isPhoneHeader (lowerHeaders h hdr) 0 = Inr None
           \<longleftrightarrow> \<not> (\<exists>v. Some v \<in> set hdr \<and> phoneLike h v)"
proof -
  have "\<exists>v. Some v \<in> set hdr \<and> phoneLike h v"
    if "k < length hdr" "hdr ! k = Some v" "phoneLike h v" for k v
    using that nth_mem [of k hdr] by auto
  then show ?thesis
    using findIndex_phone [OF assms, of h] by fastforce
qed

lemma parseExcelFile_not_MissingColumns:
  "findIndex isNameHeader (lowerHeaders h (hd jsonData)) 0 = Inr (Some a) \<Longrightarrow>
   findIndex isPhoneHeader (lowerHeaders h (hd jsonData)) 0 = Inr (Some b) \<Longrightarrow>
   parseExcelFile h n jsonData \<noteq> Inl MissingColumns"
  by (auto simp: parseExcelFile_def Let_def split: prod.splits)


lemma processRows_outcomes:
  "processRows h a b hdr i n rows = (cs, es) \<Longrightarrow>
     map phone cs = validPhones h a b rows \<and> es = rowFailures h a b i rows
     \<and> (\<forall>c \<in> set cs. status c = Pendente)"
proof (induction rows arbitrary: i n cs es)
  case Nil
  then show ?case by (simp add: validPhones_def rowFailures_def map_filter_simps)
next
  case (Cons row rows)
  show ?case
  proof (cases "truthy (cell_at row a) \<and> truthy (cell_at row b)")
    case False
    then have s: "rowOutcome h a b row = None" by (simp add: rowOutcome_def)
    from False Cons.prems have "processRows h a b hdr (Suc i) n rows = (cs, es)"
      by (auto simp: Let_def)
    from Cons.IH [OF this] s show ?thesis
      by (simp add: validPhones_def rowFailures_def map_filter_simps)
  next
    case True
    obtain cs1 es1 where r: "processRows h a b hdr (Suc i) (Suc n) rows = (cs1, es1)"
      by (cases "processRows h a b hdr (Suc i) (Suc n) rows")
    note ih = Cons.IH [OF r]
    have s: "rowOutcome h a b row = Some (cleanPhoneNumber (js_String h (cell_at row b)))"
      using True by (simp add: rowOutcome_def)
    show ?thesis
    proof (cases "cleanPhoneNumber (js_String h (cell_at row b))")
      case (Inl e)
      with True r Cons.prems have "cs = cs1 \<and> es = (i + 1, e) # es1"
        by (auto simp: Let_def)
      with ih s Inl show ?thesis
        by (simp add: validPhones_def rowFailures_def map_filter_simps)
    next
      case (Inr p)
      with True r Cons.prems have
        "\<exists>c. cs = c # cs1 \<and> phone c = p \<and> status c = Pendente" and "es = es1"
        by (auto simp: Let_def)
      with ih s Inr show ?thesis
        by (auto simp: validPhones_def rowFailures_def map_filter_simps)
    qed
  qed
qed

text \<open>
  C5, as amended. For a sheet with at least one data row and no empty cell in its header
  row, the header texts are compared in small letters and without surrounding white space:
  the name column is the first header that contains \<open>nome\<close> or is exactly \<open>name\<close>, the
  phone column the first header that contains \<open>telefone\<close>, \<open>phone\<close> or \<open>celular\<close>, and
  each is found whenever there is such a header. The import fails with the error that
  names the two required columns, and so with no record, exactly when one of the two is
  absent.
\<close>

theorem parseExcelFile_columns:
  assumes "2 \<le> length jsonData" and "None \<notin> set (hd jsonData)"
  shows "((\<exists>v. Some v \<in> set (hd jsonData) \<and> nameLike h v) \<longrightarrow>
            (\<exists>k < length (hd jsonData).
               findIndex isNameHeader (lowerHeaders h (hd jsonData)) 0 = Inr (Some k)
               \<and> (\<exists>v. hd jsonData ! k = Some v \<and> nameLike h v)
               \<and> (\<forall>j < k. \<exists>w. hd jsonData ! j = Some w \<and> \<not> nameLike h w)))
       \<and> ((\<exists>v. Some v \<in> set (hd jsonData) \<and> phoneLike h v) \<longrightarrow>
            (\<exists>k < length (hd jsonData).
               findIndex isPhoneHeader (lowerHeaders h (hd jsonData)) 0 = Inr (Some k)
               \<and> (\<exists>v. hd jsonData ! k = Some v \<and> phoneLike h v)
               \<and> (\<forall>j < k. \<exists>w. hd jsonData ! j = Some w \<and> \<not> phoneLike h w)))
       \<and> (parseExcelFile h n jsonData = Inl MissingColumns \<longleftrightarrow>
            \<not> (\<exists>v. Some v \<in> set (hd jsonData) \<and> nameLike h v)
            \<or> \<not> (\<exists>v. Some v \<in> set (hd jsonData) \<and> phoneLike h v))"
proof (intro conjI)
  note nm = findIndex_name [OF assms(2), of h]
  note ph = findIndex_phone [OF assms(2), of h]
  show "(\<exists>v. Some v \<in> set (hd jsonData) \<and> nameLike h v) \<longrightarrow>
            (\<exists>k < length (hd jsonData).
               findIndex isNameHeader (lowerHeaders h (hd jsonData)) 0 = Inr (Some k)
               \<and> (\<exists>v. hd jsonData ! k = Some v \<and> nameLike h v)
               \<and> (\<forall>j < k. \<exists>w. hd jsonData ! j = Some w \<and> \<not> nameLike h w))"
    using nm by blast
  show "(\<exists>v. Some v \<in> set (hd jsonData) \<and> phoneLike h v) \<longrightarrow>
            (\<exists>k < length (hd jsonData).
               findIndex isPhoneHeader (lowerHeaders h (hd jsonData)) 0 = Inr (Some k)
               \<and> (\<exists>v. hd jsonData ! k = Some v \<and> phoneLike h v)
               \<and> (\<forall>j < k. \<exists>w. hd jsonData ! j = Some w \<and> \<not> phoneLike h w))"
    using ph by blast
  have l: "\<not> length jsonData < 2" using assms(1) by simp
  show "parseExcelFile h n jsonData = Inl MissingColumns \<longleftrightarrow>
            \<not> (\<exists>v. Some v \<in> set (hd jsonData) \<and> nameLike h v)
            \<or> \<not> (\<exists>v. Some v \<in> set (hd jsonData) \<and> phoneLike h v)"
  proof
    assume m: "parseExcelFile h n jsonData = Inl MissingColumns"
    show "\<not> (\<exists>v. Some v \<in> set (hd jsonData) \<and> nameLike h v)
            \<or> \<not> (\<exists>v. Some v \<in> set (hd jsonData) \<and> phoneLike h v)"
    proof (rule ccontr)
      assume "\<not> ?thesis"
      then have "findIndex isNameHeader (lowerHeaders h (hd jsonData)) 0 \<noteq> Inr None"
        "findIndex isPhoneHeader (lowerHeaders h (hd jsonData)) 0 \<noteq> Inr None"
        using findIndex_name_None [OF assms(2), of h] findIndex_phone_None [OF assms(2), of h]
        by blast+
      then obtain a b where
        "findIndex isNameHeader (lowerHeaders h (hd jsonData)) 0 = Inr (Some a)"
        "findIndex isPhoneHeader (lowerHeaders h (hd jsonData)) 0 = Inr (Some b)"
        using nm ph by blast
      from parseExcelFile_not_MissingColumns [OF this] m show False by blast
    qed
  next
    assume "\<not> (\<exists>v. Some v \<in> set (hd jsonData) \<and> nameLike h v)
            \<or> \<not> (\<exists>v. Some v \<in> set (hd jsonData) \<and> phoneLike h v)"
    then have "findIndex isNameHeader (lowerHeaders h (hd jsonData)) 0 = Inr None
        \<or> findIndex isPhoneHeader (lowerHeaders h (hd jsonData)) 0 = Inr None"
      using findIndex_name_None [OF assms(2), of h] findIndex_phone_None [OF assms(2), of h]
      by blast
    moreover have "\<exists>r. findIndex isNameHeader (lowerHeaders h (hd jsonData)) 0 = Inr r"
      using nm by blast
    moreover have "\<exists>r. findIndex isPhoneHeader (lowerHeaders h (hd jsonData)) 0 = Inr r"
      using ph by blast
    ultimately show "parseExcelFile h n jsonData = Inl MissingColumns"
      using l by (auto simp: parseExcelFile_def Let_def split: option.splits)
  qed
qed

theorem parseExcelFile_columns_witness:
  "2 \<le> length test_sheet \<and> None \<notin> set (hd test_sheet)
   \<and> nameLike test_host (JStr ''Nome'') \<and> phoneLike test_host (JStr '' Telefone '')
   \<and> parseExcelFile test_host 0 test_sheet \<noteq> Inl MissingColumns"
proof -
  have a: "2 \<le> length test_sheet" "None \<notin> set (hd test_sheet)"
    by (simp_all add: test_sheet_def)
  have b: "nameLike test_host (JStr ''Nome'')" "phoneLike test_host (JStr '' Telefone '')"
    by code_simp+
  have c: "Some (JStr ''Nome'') \<in> set (hd test_sheet)"
    "Some (JStr '' Telefone '') \<in> set (hd test_sheet)"
    by (simp_all add: test_sheet_def)
  show ?thesis
    using parseExcelFile_columns [OF a, of test_host 0] a b c by blast
qed

text \<open>
  The claim C5 as it is stated fails: a header that contains \<open>name\<close> without being that
  word alone is not taken for the name column, and the import fails for want of one.
\<close>

theorem parseExcelFile_full_name_counterexample:
  "includes_str (toLowerCase ''Full Name'') ''name''
   \<and> parseExcelFile test_host 0
       [[Some (JStr ''Full Name''), Some (JStr ''Phone'')],
        [Some (JStr ''Ana''), Some (JStr ''11999999999'')]]
     = Inl MissingColumns"
  by code_simp

text \<open>
  C6, as amended. Once the two columns are found in a sheet with at least one data row: a
  row that lacks a name or a phone yields neither a record nor an error; a row that has
  both yields a record when its phone normalises and otherwise an entry of the error list
  under its row number, and the rows after it are still read; the records are those of the
  valid rows in order. When no row yields a record the import fails: with the error that
  lists these entries when there is one, and with the plain error that no contact was
  found when every row was passed over. When some rows yield a record the import succeeds
  with the records, and the entries are only handed to the console.
\<close>

theorem parseExcelFile_rows:
  assumes "2 \<le> length jsonData"
    and "findIndex isNameHeader (lowerHeaders h (hd jsonData)) 0 = Inr (Some a)"
    and "findIndex isPhoneHeader (lowerHeaders h (hd jsonData)) 0 = Inr (Some b)"
  shows "(validPhones h a b (tl jsonData) = [] \<and> rowFailures h a b 1 (tl jsonData) \<noteq> [] \<longrightarrow>
            parseExcelFile h n jsonData
              = Inl (NoValidContacts (rowFailures h a b 1 (tl jsonData))))
       \<and> (validPhones h a b (tl jsonData) = [] \<and> rowFailures h a b 1 (tl jsonData) = [] \<longrightarrow>
            parseExcelFile h n jsonData = Inl NoContactsFound)
       \<and> (validPhones h a b (tl jsonData) \<noteq> [] \<longrightarrow>
            (\<exists>cs. parseExcelFile h n jsonData = Inr (cs, rowFailures h a b 1 (tl jsonData))
                  \<and> map phone cs = validPhones h a b (tl jsonData)
                  \<and> (\<forall>c \<in> set cs. status c = Pendente)))"
proof -
  obtain cs es where r: "processRows h a b (hd jsonData) 1 n (tl jsonData) = (cs, es)"
    by (cases "processRows h a b (hd jsonData) 1 n (tl jsonData)")
  note o = processRows_outcomes [OF r]
  have p: "parseExcelFile h n jsonData
      = (if cs = [] then Inl (if es \<noteq> [] then NoValidContacts es else NoContactsFound)
         else Inr (cs, es))"
    using assms r by (simp add: parseExcelFile_def Let_def)
  have e: "cs = [] \<longleftrightarrow> validPhones h a b (tl jsonData) = []"
    using o by (metis map_is_Nil_conv)
  show ?thesis using p e o by auto
qed

theorem parseExcelFile_rows_witness:
  "parseExcelFile test_host 0 test_sheet
     = Inr ([\<lparr>id_c = JStr ''generated-i'', name = JStr ''Ana'', phone = ''5511999999999'',
               status = Pendente, customMessage = JUndef, timerActive = None,
               extraInfo = Some [(''Cidade'', JStr ''SP'')]\<rparr>,
             \<lparr>id_c = JStr ''generated-iii'', name = JStr ''Caio'', phone = ''5521988887777'',
               status = Pendente, customMessage = JUndef, timerActive = None,
               extraInfo = None\<rparr>],
            [(4, InvalidPhone ''123'')])
   \<and> validPhones test_host 0 1 (tl test_sheet) = [''5511999999999'', ''5521988887777'']
   \<and> rowFailures test_host 0 1 1 (tl test_sheet) = [(4, InvalidPhone ''123'')]"
proof -
  have l: "2 \<le> length test_sheet" by (simp add: test_sheet_def)
  have a: "findIndex isNameHeader (lowerHeaders test_host (hd test_sheet)) 0 = Inr (Some 0)"
    by code_simp
  have b: "findIndex isPhoneHeader (lowerHeaders test_host (hd test_sheet)) 0 = Inr (Some 1)"
    by code_simp
  have v: "validPhones test_host 0 1 (tl test_sheet) = [''5511999999999'', ''5521988887777'']"
    by code_simp
  have r: "parseExcelFile test_host 0 test_sheet
     = Inr ([\<lparr>id_c = JStr ''generated-i'', name = JStr ''Ana'', phone = ''5511999999999'',
               status = Pendente, customMessage = JUndef, timerActive = None,
               extraInfo = Some [(''Cidade'', JStr ''SP'')]\<rparr>,
             \<lparr>id_c = JStr ''generated-iii'', name = JStr ''Caio'', phone = ''5521988887777'',
               status = Pendente, customMessage = JUndef, timerActive = None,
               extraInfo = None\<rparr>],
            [(4, InvalidPhone ''123'')])"
    by code_simp
  have ne: "validPhones test_host 0 1 (tl test_sheet) \<noteq> []"
    unfolding v by simp
  from parseExcelFile_rows [OF l a b, of 0] ne obtain cs where
    cs: "parseExcelFile test_host 0 test_sheet
           = Inr (cs, rowFailures test_host 0 1 1 (tl test_sheet))"
    by blast
  from cs r have "rowFailures test_host 0 1 1 (tl test_sheet) = [(4, InvalidPhone ''123'')]"
    by simp
  with r v show ?thesis by blast
qed

text \<open>
  The claim C6 as it is stated fails: in a sheet whose data rows all lack a name or a
  phone no row yields a record and no row fails, and the import fails with the plain error
  that no contact was found, not with the error that lists the failures of the rows.
\<close>

theorem parseExcelFile_all_skipped_counterexample:
  "validPhones test_host 0 1 (tl test_skipped_sheet) = []
   \<and> rowFailures test_host 0 1 1 (tl test_skipped_sheet) = []
   \<and> parseExcelFile test_host 0 test_skipped_sheet = Inl NoContactsFound
   \<and> parseExcelFile test_host 0 test_skipped_sheet \<noteq> Inl (NoValidContacts [])"
  by code_simp

subsection \<open>Template renderer\<close>




text \<open>
  What \<open>substitute_all\<close> does at the first occurrence of the pattern: the text before it
  is kept, the value stands for the pattern, and the rest is treated in the same way.
\<close>

lemma substitute_all_first:
  assumes "pat \<noteq> []" and "\<not> includes_str (a @ butlast pat) pat"
  shows "substitute_all pat v (a @ pat @ b) = a @ v @ substitute_all pat v b"
  using assms(2)
proof (induction a)
  case Nil
  obtain p ps where p: "pat = p # ps" using assms(1) by (cases pat) auto
  then show ?case by simp
next
  case (Cons c a)
  from Cons.prems have ns: "\<not> startsWith (c # a @ butlast pat) pat"
    and ni: "\<not> includes_str (a @ butlast pat) pat"
    by simp_all
  obtain q l where pq: "pat = q @ [l]"
    using assms(1) by (cases pat rule: rev_cases) auto
  have "c # a @ pat @ b = (c # a @ q) @ (l # b)" by (simp add: pq)
  then have "take (length pat) (c # a @ pat @ b) = take (Suc (length q)) ((c # a @ q) @ (l # b))"
    by (simp add: pq)
  also have "\<dots> = take (length pat) (c # a @ butlast pat)"
    by (simp add: pq)
  finally have "take (length pat) (c # a @ pat @ b) \<noteq> pat"
    using ns startsWith_take [of "c # a @ butlast pat" pat] by simp
  then have "substitute_all pat v ((c # a) @ pat @ b) = c # substitute_all pat v (a @ pat @ b)"
    by simp
  with Cons.IH [OF ni] show ?case by simp
qed




subsection \<open>Contact store\<close>

lemma timerCallback_mem:
  "x \<in> set (timerCallback k cs) \<Longrightarrow>
     \<exists>y \<in> set cs. id_c x = id_c y
        \<and> (if id_c y = k \<and> status y = MensagemEnviada
            then status x = AguardandoResposta \<and> timerActive x = Some False
            else x = y)"
  by (auto simp: timerCallback_def)

lemma handleWhatsAppClick_contacts:
  "handleWhatsAppClick h c st = Inr (url, st1) \<Longrightarrow>
     contacts st1
       = map (\<lambda>x. if id_c x = id_c c
                  then x\<lparr>status := MensagemEnviada, timerActive := Some True\<rparr> else x)
           (contacts st)
     \<and> timers st1 = timers st @ map id_c [x \<leftarrow> contacts st. id_c x = id_c c]"
  by (auto simp: handleWhatsAppClick_def Let_def split: jv.splits if_splits)

text \<open>
  C8. When a timer fires for a contact id, its callback keeps the length and the order of
  the collection, turns a record into \<open>AguardandoResposta\<close> with the timer marker cleared
  exactly when the record carries the id and its status is \<open>MensagemEnviada\<close> at that
  moment, and leaves every other record as it is; it is a total function and raises
  nothing. After a dispatch, if the status is set to \<open>Respondido\<close> by hand before a timer
  fires, the record stays \<open>Respondido\<close>; if nothing touches it, the timer of the dispatch
  moves it to \<open>AguardandoResposta\<close>.
\<close>

theorem timerCallback_guard:
  "length (timerCallback k cs) = length cs
   \<and> (\<forall>i < length cs.
        (id_c (cs ! i) = k \<and> status (cs ! i) = MensagemEnviada \<longrightarrow>
           timerCallback k cs ! i
             = (cs ! i)\<lparr>status := AguardandoResposta, timerActive := Some False\<rparr>)
        \<and> (\<not> (id_c (cs ! i) = k \<and> status (cs ! i) = MensagemEnviada) \<longrightarrow>
             timerCallback k cs ! i = cs ! i))
   \<and> (handleWhatsAppClick h c st = Inr (url, st1) \<longrightarrow>
        (\<forall>x \<in> set (contacts (timerFires j (updateStatus (id_c c) Respondido st1))).
           id_c x = id_c c \<longrightarrow> status x = Respondido))
   \<and> (handleWhatsAppClick h c st = Inr (url, st1) \<and> j < length (timers st1)
        \<and> timers st1 ! j = id_c c \<longrightarrow>
        (\<forall>x \<in> set (contacts (timerFires j st1)).
           id_c x = id_c c \<longrightarrow> status x = AguardandoResposta \<and> timerActive x = Some False))"
proof -
  have len: "length (timerCallback k cs) = length cs"
    by (simp add: timerCallback_def)
  have each: "(id_c (cs ! i) = k \<and> status (cs ! i) = MensagemEnviada \<longrightarrow>
           timerCallback k cs ! i
             = (cs ! i)\<lparr>status := AguardandoResposta, timerActive := Some False\<rparr>)
        \<and> (\<not> (id_c (cs ! i) = k \<and> status (cs ! i) = MensagemEnviada) \<longrightarrow>
             timerCallback k cs ! i = cs ! i)"
    if "i < length cs" for i
    using that by (auto simp: timerCallback_def)
  have manual: "status x = Respondido"
    if d: "handleWhatsAppClick h c st = Inr (url, st1)"
      and x: "x \<in> set (contacts (timerFires j (updateStatus (id_c c) Respondido st1)))"
      and i: "id_c x = id_c c" for x
  proof -
    let ?st2 = "updateStatus (id_c c) Respondido st1"
    have u: "\<forall>y \<in> set (contacts ?st2). id_c y = id_c c \<longrightarrow> status y = Respondido"
      by (auto simp: updateStatus_def)
    show ?thesis
    proof (cases "j < length (timers ?st2)")
      case False
      with x have "x \<in> set (contacts ?st2)" by (simp add: timerFires_def)
      with u i show ?thesis by blast
    next
      case True
      with x have "x \<in> set (timerCallback (timers ?st2 ! j) (contacts ?st2))"
        by (simp add: timerFires_def)
      from timerCallback_mem [OF this] obtain y where
        y: "y \<in> set (contacts ?st2)" "id_c x = id_c y"
        "if id_c y = timers ?st2 ! j \<and> status y = MensagemEnviada
         then status x = AguardandoResposta \<and> timerActive x = Some False else x = y"
        by blast
      from y(1,2) i u have "status y = Respondido" by simp
      with y(3) show ?thesis by simp
    qed
  qed
  have untouched: "status x = AguardandoResposta \<and> timerActive x = Some False"
    if a: "handleWhatsAppClick h c st = Inr (url, st1) \<and> j < length (timers st1)
        \<and> timers st1 ! j = id_c c"
      and x: "x \<in> set (contacts (timerFires j st1))"
      and i: "id_c x = id_c c" for x
  proof -
    from a handleWhatsAppClick_contacts [of h c st url st1]
    have s: "\<forall>y \<in> set (contacts st1). id_c y = id_c c \<longrightarrow> status y = MensagemEnviada"
      by auto
    from a x have "x \<in> set (timerCallback (id_c c) (contacts st1))"
      by (simp add: timerFires_def)
    from timerCallback_mem [OF this] obtain y where
      y: "y \<in> set (contacts st1)" "id_c x = id_c y"
      "if id_c y = id_c c \<and> status y = MensagemEnviada
       then status x = AguardandoResposta \<and> timerActive x = Some False else x = y"
      by blast
    from y(1,2) i s have "id_c y = id_c c \<and> status y = MensagemEnviada" by simp
    with y(3) show ?thesis by simp
  qed
  show ?thesis
    using len each manual untouched by blast
qed

theorem timerCallback_guard_witness:
  "handleWhatsAppClick test_host test_contact test_store
     = Inr (''https://wa.me/5511999999999?text=Oi Ana'', test_dispatched)
   \<and> map status (contacts (timerFires 0 test_dispatched)) = [AguardandoResposta]
   \<and> map timerActive (contacts (timerFires 0 test_dispatched)) = [Some False]
   \<and> map status (contacts (timerFires 0 (updateStatus (JStr ''k2'') Respondido test_dispatched)))
       = [Respondido]
   \<and> timerCallback (JStr ''k2'') (contacts test_store) = contacts test_store"
proof -
  have d: "handleWhatsAppClick test_host test_contact test_store
     = Inr (''https://wa.me/5511999999999?text=Oi Ana'', test_dispatched)"
    by code_simp
  have t: "0 < length (timers test_dispatched) \<and> timers test_dispatched ! 0 = id_c test_contact"
    by code_simp
  have i: "id_c test_contact = JStr ''k2''"
    by (simp add: test_contact_def)
  have c1: "contacts (timerFires 0 test_dispatched)
      = [test_contact\<lparr>status := AguardandoResposta, timerActive := Some False\<rparr>]"
    by code_simp
  have c2: "contacts (timerFires 0 (updateStatus (JStr ''k2'') Respondido test_dispatched))
      = [test_contact\<lparr>status := Respondido, timerActive := Some False\<rparr>]"
    by code_simp
  have c3: "contacts test_store = [test_contact]" "status test_contact = Pendente"
    by (simp_all add: test_store_def test_contact_def)
  show ?thesis
    using timerCallback_guard [of "JStr ''k2''" "contacts test_store" test_host test_contact
        test_store "''https://wa.me/5511999999999?text=Oi Ana''" test_dispatched 0]
      d t i c1 c2 c3
    by (auto simp: length_Suc_conv)
qed

subsection \<open>Export\<close>





















end
